theory Spec2Isabelle
  imports Complex_Main "HOL-Library.Sublist"
begin

section \<open>Strings\<close>

text \<open>
  Python's \<^verbatim>\<open>str\<close> is modelled by \<^typ>\<open>string\<close> restricted to ASCII text: one
  \<^typ>\<open>char\<close> per code point. \<^verbatim>\<open>str.lower()\<close> maps the letters A..Z to a..z and
  leaves every other character alone.
\<close>

definition lower_char :: "char \<Rightarrow> char" where
  "lower_char c =
     (if (65::nat) \<le> of_char c \<and> (of_char c :: nat) \<le> 90
      then char_of (of_char c + (32::nat)) else c)"

definition lower :: "string \<Rightarrow> string" where
  "lower s = map lower_char s"

text \<open>
  \<^verbatim>\<open>pattern in text\<close> on strings: the pattern occurs in the text as a contiguous
  block. The scan tries every start position from left to right.
\<close>

fun str_in :: "string \<Rightarrow> string \<Rightarrow> bool" where
  "str_in p [] = (p = [])"
| "str_in p (c # cs) = (prefix p (c # cs) \<or> str_in p cs)"

section \<open>CloudWatch alerts (src/alerts/cloudwatch_handler.py)\<close>

text \<open>The dataclass \<^verbatim>\<open>CloudWatchAlert\<close>: nine string fields.\<close>

record cloudwatch_alert =
  alarm_name :: string
  alarm_description :: string
  metric_name :: string
  namespace :: string
  timestamp :: string
  state :: string
  reason :: string
  region :: string
  account_id :: string

subsection \<open>validate_alert\<close>

text \<open>
  \<^verbatim>\<open>
  if alert.state != 'ALARM': return False
  ignore_patterns = self.config.get('ignore_patterns', [])
  for pattern in ignore_patterns:
      if pattern in alert.alarm_name.lower(): return False
  return True
  \<close>
  The configured list \<^verbatim>\<open>ignore_patterns\<close> is the first argument. The loop returns at
  the first pattern that occurs in the lower-cased alarm name.
\<close>

fun no_pattern_matches :: "string list \<Rightarrow> string \<Rightarrow> bool" where
  "no_pattern_matches [] nm = True"
| "no_pattern_matches (pattern # rest) nm =
     (if str_in pattern (lower nm) then False else no_pattern_matches rest nm)"

definition validate_alert :: "string list \<Rightarrow> cloudwatch_alert \<Rightarrow> bool" where
  "validate_alert ignore_patterns a =
     (if state a \<noteq> ''ALARM'' then False
      else no_pattern_matches ignore_patterns (alarm_name a))"

section \<open>Repository ranking (src/vcs/github_handler.py)\<close>

text \<open>
  The dataclass \<^verbatim>\<open>RepositoryConfig\<close>. The priority is a string, as in the source; only
  the values high, medium and low have a boost of their own.
\<close>

record repository_config =
  owner :: string
  name :: string
  access_token :: string
  branch :: string
  file_patterns :: "string list"
  alert_keywords :: "string list"
  priority :: string

subsection \<open>_extract_words_from_text\<close>

text \<open>
  \<^verbatim>\<open>re.findall(r'\b\w+\b', text.lower())\<close> returns the maximal runs of word characters
  (letters, digits and the underscore), from left to right. The scan keeps the run it
  is reading in \<open>cur\<close>.
\<close>

definition is_word_char :: "char \<Rightarrow> bool" where
  "is_word_char c =
     (let n = (of_char c :: nat)
      in (48 \<le> n \<and> n \<le> 57) \<or> (65 \<le> n \<and> n \<le> 90) \<or> n = 95 \<or> (97 \<le> n \<and> n \<le> 122))"

fun findall_words :: "string \<Rightarrow> string \<Rightarrow> string list" where
  "findall_words cur [] = (if cur = [] then [] else [cur])"
| "findall_words cur (c # cs) =
     (if is_word_char c then findall_words (cur @ [c]) cs
      else if cur = [] then findall_words [] cs
      else cur # findall_words [] cs)"

definition stop_words :: "string list" where
  "stop_words =
     [''the'', ''and'', ''or'', ''but'', ''in'', ''on'', ''at'', ''to'', ''for'', ''of'',
      ''with'', ''by'', ''is'', ''are'', ''was'', ''were'']"

definition extract_words_from_text :: "string \<Rightarrow> string list" where
  "extract_words_from_text t =
     filter (\<lambda>word. word \<notin> set stop_words \<and> length word > 2) (findall_words [] (lower t))"

subsection \<open>_extract_alert_keywords\<close>

text \<open>
  The alert is a \<^verbatim>\<open>CloudWatchAlert\<close>: the dataclass has no attribute
  \<^verbatim>\<open>extract_keywords\<close> (that method belongs to the handler class) and it has
  \<^verbatim>\<open>alarm_name\<close>, so the second branch of the \<^verbatim>\<open>hasattr\<close> chain runs. The result is
  \<^verbatim>\<open>list(set([word for word in keywords if len(word) > 2]))\<close>: a list without
  duplicates, in an order Python does not fix; \<^const>\<open>remdups\<close> picks one such order.
\<close>

definition extract_alert_keywords :: "cloudwatch_alert \<Rightarrow> string list" where
  "extract_alert_keywords a =
     (let keywords =
            extract_words_from_text (alarm_name a)
            @ (if namespace a \<noteq> [] then extract_words_from_text (namespace a) else [])
            @ (if metric_name a \<noteq> [] then extract_words_from_text (metric_name a) else [])
      in remdups (filter (\<lambda>word. length word > 2) keywords))"

subsection \<open>_calculate_relevance_score\<close>

text \<open>
  Python's floats are modelled by exact rationals: the score is the value of the
  source's arithmetic expression without rounding. A Python set is a list without
  duplicates and \<^verbatim>\<open>len\<close> is its length.
\<close>

definition priority_boost :: "string \<Rightarrow> rat" where
  "priority_boost p =
     (if p = ''high'' then 2 / 10
      else if p = ''medium'' then 1 / 10
      else if p = ''low'' then 0
      else 0)"

definition calculate_relevance_score :: "string list \<Rightarrow> repository_config \<Rightarrow> rat" where
  "calculate_relevance_score keywords repo_config =
     (if keywords = [] then 0
      else
        let score0 =
              (if alert_keywords repo_config \<noteq> [] then
                 let alert_set = remdups keywords;
                     repo_set = remdups (map lower (alert_keywords repo_config));
                     overlap = filter (\<lambda>w. w \<in> set repo_set) alert_set
                 in if overlap \<noteq> []
                    then of_nat (length overlap) / of_nat (length alert_set) * (8 / 10)
                    else 0
               else 3 / 10);
            score1 = score0 + priority_boost (priority repo_config);
            repo_name_words = extract_words_from_text (name repo_config);
            name_overlap = filter (\<lambda>w. w \<in> set repo_name_words) (remdups keywords);
            score2 =
              (if name_overlap \<noteq> []
               then score1 + of_nat (length name_overlap) / of_nat (length keywords) * (3 / 10)
               else score1)
        in min score2 1)"

subsection \<open>identify_relevant_repositories\<close>

text \<open>
  The loop appends every repository whose score exceeds 0.1, in input order.
  \<^verbatim>\<open>relevant_repos.sort(key=lambda x: x[1], reverse=True)\<close> is Python's stable sort in
  descending order of the score: entries with equal scores keep their order. It is
  modelled by the stable insertion sort \<^const>\<open>sort_key\<close> on the negated score.
  \<^verbatim>\<open>relevant_repos[:3]\<close> keeps the first three entries.
\<close>

fun collect_relevant :: "string list \<Rightarrow> repository_config list \<Rightarrow> (repository_config \<times> rat) list" where
  "collect_relevant keywords [] = []"
| "collect_relevant keywords (repo_config # rest) =
     (let relevance_score = calculate_relevance_score keywords repo_config
      in if relevance_score > 1 / 10
         then (repo_config, relevance_score) # collect_relevant keywords rest
         else collect_relevant keywords rest)"

definition sort_by_score_desc :: "(repository_config \<times> rat) list \<Rightarrow> (repository_config \<times> rat) list" where
  "sort_by_score_desc xs = sort_key (\<lambda>x. - snd x) xs"

definition rank_repositories :: "string list \<Rightarrow> repository_config list \<Rightarrow> (repository_config \<times> rat) list" where
  "rank_repositories keywords repo_configs =
     take 3 (sort_by_score_desc (collect_relevant keywords repo_configs))"

definition identify_relevant_repositories ::
  "cloudwatch_alert \<Rightarrow> repository_config list \<Rightarrow> (repository_config \<times> rat) list" where
  "identify_relevant_repositories a repo_configs =
     rank_repositories (extract_alert_keywords a) repo_configs"

subsection \<open>The score as the specification words it\<close>

text \<open>
  Section 4.1 of the specification, on sets: \<open>K\<close> is the alert keyword set, the second
  argument the repository's keyword set, then its priority and the token set of its
  name. A priority outside high, medium and low, which the specification's
  enumeration excludes, adds nothing.
\<close>

definition spec_score :: "string set \<Rightarrow> string set \<Rightarrow> string \<Rightarrow> string set \<Rightarrow> rat" where
  "spec_score K repo_keywords prio name_tokens =
     (if K = {} then 0
      else min
        ((if repo_keywords \<noteq> {}
          then of_nat (card (K \<inter> repo_keywords)) / of_nat (card K) * (8 / 10)
          else 3 / 10)
         + (if prio = ''high'' then 2 / 10 else if prio = ''medium'' then 1 / 10 else 0)
         + of_nat (card (K \<inter> name_tokens)) / of_nat (card K) * (3 / 10))
        1)"

section \<open>Parsing alerts (CloudWatchAlert.from_sns_message)\<close>

text \<open>
  The message is a dictionary from strings to strings: the payload's fields are the
  strings that the dataclass's annotations declare. \<^verbatim>\<open>json.loads\<close> belongs to the
  standard library and is a parameter: on a text it raises \<^verbatim>\<open>JSONDecodeError\<close>,
  returns a mapping, or returns another JSON value (a list, a number, ...), on which
  \<^verbatim>\<open>.get\<close> raises \<^verbatim>\<open>AttributeError\<close>. Every exception inside the \<^verbatim>\<open>try\<close> is
  re-raised as \<^verbatim>\<open>ValueError\<close>.
\<close>

datatype loaded = Decode_error | Loaded_mapping "string \<rightharpoonup> string" | Loaded_other

datatype parse_error = ValueError

definition dict_get :: "(string \<rightharpoonup> string) \<Rightarrow> string \<Rightarrow> string \<Rightarrow> string" where
  "dict_get d k dflt = (case d k of None \<Rightarrow> dflt | Some v \<Rightarrow> v)"

definition alert_of_mapping :: "(string \<rightharpoonup> string) \<Rightarrow> cloudwatch_alert" where
  "alert_of_mapping message_data =
     \<lparr>alarm_name = dict_get message_data ''AlarmName'' '''',
      alarm_description = dict_get message_data ''AlarmDescription'' '''',
      metric_name = dict_get message_data ''MetricName'' '''',
      namespace = dict_get message_data ''Namespace'' '''',
      timestamp = dict_get message_data ''StateChangeTime'' '''',
      state = dict_get message_data ''NewStateValue'' '''',
      reason = dict_get message_data ''NewStateReason'' '''',
      region = dict_get message_data ''Region'' '''',
      account_id = dict_get message_data ''AWSAccountId'' ''''\<rparr>"

definition from_sns_message ::
  "(string \<Rightarrow> loaded) \<Rightarrow> (string \<rightharpoonup> string) \<Rightarrow> parse_error + cloudwatch_alert" where
  "from_sns_message json_loads sns_message =
     (case sns_message ''Message'' of
        Some msg \<Rightarrow>
          (case json_loads msg of
             Decode_error \<Rightarrow> Inl ValueError
           | Loaded_mapping message_data \<Rightarrow> Inr (alert_of_mapping message_data)
           | Loaded_other \<Rightarrow> Inl ValueError)
      | None \<Rightarrow> Inr (alert_of_mapping sns_message))"

section \<open>Research jobs (src/core/code_researcher_system.py)\<close>

text \<open>
  The status is one of the six strings that the dataclass \<^verbatim>\<open>ResearchJob\<close> lists:
  pending, analyzing, generating_fixes, creating_prs, completed, failed.
\<close>

datatype job_status = Pending | Analyzing | Generating_fixes | Creating_prs | Completed | Failed

text \<open>
  What the job processor reads from the orchestrator's result dictionary: the truth
  value of its entry \<^verbatim>\<open>analysis_complete\<close> and the list of fix proposals that
  \<^verbatim>\<open>_extract_fixes_from_orchestrator_response\<close> returns for it.
\<close>

record orchestrator_result =
  analysis_complete :: bool
  fix_proposals :: "string list"

record research_job =
  job_id :: string
  alert :: cloudwatch_alert
  repositories :: "repository_config list"
  status :: job_status
  orchestrator_response :: "orchestrator_result option"
  pull_requests :: "string list option"
  error_message :: "string option"
  created_at :: "nat option"
  completed_at :: "nat option"

text \<open>
  \<^verbatim>\<open>process_alert\<close> creates every job:
  \<^verbatim>\<open>ResearchJob(job_id=..., alert=..., repositories=..., status='pending', created_at=datetime.now())\<close>;
  the other fields take the dataclass's default \<^verbatim>\<open>None\<close>.
\<close>

definition new_job :: "string \<Rightarrow> cloudwatch_alert \<Rightarrow> repository_config list \<Rightarrow> nat \<Rightarrow> research_job" where
  "new_job jid a repos created =
     \<lparr>job_id = jid, alert = a, repositories = repos, status = Pending,
      orchestrator_response = None, pull_requests = None, error_message = None,
      created_at = Some created, completed_at = None\<rparr>"

subsection \<open>Executions\<close>

text \<open>
  \<^verbatim>\<open>_process_research_job\<close> mutates the job in place. An execution carries the job
  and the history of what was done to it: every assignment to a field (with the job
  after it), every \<^verbatim>\<open>await\<close> (with the job as it stands while the coroutine is
  suspended) and every entry into the loop body (with the candidate). The callers
  that read a job (\<^verbatim>\<open>get_job_status\<close>, called by the request handlers of
  src/api/webhook_server.py) run on the same event loop as the job's task: they run
  before the task starts, while it is suspended in an \<^verbatim>\<open>await\<close>, or after it ended.
\<close>

datatype job_field =
  Status_field | Orchestrator_response_field | Pull_requests_field | Error_message_field
  | Completed_at_field

datatype step =
  Assign job_field research_job
  | Suspend research_job
  | Visit repository_config

record execution =
  current :: research_job
  history :: "step list"

definition assign :: "job_field \<Rightarrow> (research_job \<Rightarrow> research_job) \<Rightarrow> execution \<Rightarrow> execution" where
  "assign f upd ex =
     (let j = upd (current ex) in \<lparr>current = j, history = history ex @ [Assign f j]\<rparr>)"

definition suspend :: "execution \<Rightarrow> execution" where
  "suspend ex = \<lparr>current = current ex, history = history ex @ [Suspend (current ex)]\<rparr>"

definition visit :: "repository_config \<Rightarrow> execution \<Rightarrow> execution" where
  "visit repo_config ex = \<lparr>current = current ex, history = history ex @ [Visit repo_config]\<rparr>"

definition set_status :: "job_status \<Rightarrow> execution \<Rightarrow> execution" where
  "set_status s = assign Status_field (\<lambda>j. j\<lparr>status := s\<rparr>)"

definition set_error_message :: "string \<Rightarrow> execution \<Rightarrow> execution" where
  "set_error_message m = assign Error_message_field (\<lambda>j. j\<lparr>error_message := Some m\<rparr>)"

definition set_completed_at :: "nat \<Rightarrow> execution \<Rightarrow> execution" where
  "set_completed_at now = assign Completed_at_field (\<lambda>j. j\<lparr>completed_at := Some now\<rparr>)"

text \<open>Python's truth value of an optional list and of an optional string.\<close>

definition truthy :: "'a list option \<Rightarrow> bool" where
  "truthy x = (case x of None \<Rightarrow> False | Some l \<Rightarrow> l \<noteq> [])"

subsection \<open>One candidate\<close>

text \<open>
  What the collaborators do while one candidate is processed:
  \<^item> \<open>Workspace_raises m\<close>: \<^verbatim>\<open>tempfile.TemporaryDirectory()\<close> raises on entry, outside
    the inner \<^verbatim>\<open>try\<close>, so the exception reaches the outer handler (the removal of
    the directory on exit is taken not to raise);
  \<^item> \<open>Clone_raises m\<close>: \<^verbatim>\<open>clone_repository\<close> raises;
  \<^item> \<open>Analyze_raises m\<close>: the awaited \<^verbatim>\<open>analyze_crash\<close> raises;
  \<^item> \<open>Analyzed result pr\<close>: \<^verbatim>\<open>analyze_crash\<close> returns \<open>result\<close>, and
    \<^verbatim>\<open>_create_pull_request_for_fixes\<close>, if it is called, raises with message \<open>m\<close>
    (\<open>pr = Inl m\<close>) or returns the URL \<open>u\<close> (\<open>pr = Inr u\<close>).
  The result \<open>Inl (m, ex)\<close> is an exception with message \<open>m\<close> that leaves the loop.
\<close>

datatype candidate_outcome =
  Workspace_raises string
  | Clone_raises string
  | Analyze_raises string
  | Analyzed orchestrator_result "string + string"

fun process_candidate ::
  "repository_config \<Rightarrow> candidate_outcome \<Rightarrow> execution \<Rightarrow> string \<times> execution + execution" where
  "process_candidate repo_config (Workspace_raises m) ex = Inl (m, visit repo_config ex)"
| "process_candidate repo_config (Clone_raises m) ex =
     Inr (set_error_message m (visit repo_config ex))"
| "process_candidate repo_config (Analyze_raises m) ex =
     Inr (set_error_message m (suspend (visit repo_config ex)))"
| "process_candidate repo_config (Analyzed orchestrator_result pr) ex =
     (let ex1 = assign Orchestrator_response_field
                  (\<lambda>j. j\<lparr>orchestrator_response := Some orchestrator_result\<rparr>)
                  (suspend (visit repo_config ex))
      in if analysis_complete orchestrator_result then
           let ex2 = set_status Creating_prs ex1
           in if fix_proposals orchestrator_result \<noteq> [] then
                (case pr of
                   Inl m \<Rightarrow> Inr (set_error_message m (suspend ex2))
                 | Inr pr_url \<Rightarrow>
                     let ex3 = suspend ex2;
                         ex4 = (if \<not> truthy (pull_requests (current ex3))
                                then assign Pull_requests_field (\<lambda>j. j\<lparr>pull_requests := Some []\<rparr>) ex3
                                else ex3)
                     in Inr (assign Pull_requests_field
                               (\<lambda>j. j\<lparr>pull_requests :=
                                       map_option (\<lambda>l. l @ [pr_url]) (pull_requests j)\<rparr>)
                               ex4))
              else Inr ex2
         else Inr ex1)"

subsection \<open>The loop over the candidates\<close>

text \<open>
  \<^verbatim>\<open>for repo_config, relevance_score in relevant_repos[:2]\<close>. The \<open>i\<close>-th iteration
  meets the outcome \<open>outcome i\<close>.
\<close>

fun process_candidates ::
  "(nat \<Rightarrow> candidate_outcome) \<Rightarrow> nat \<Rightarrow> (repository_config \<times> rat) list \<Rightarrow> execution
     \<Rightarrow> string \<times> execution + execution" where
  "process_candidates outcome i [] ex = Inr ex"
| "process_candidates outcome i ((repo_config, relevance_score) # rest) ex =
     (case process_candidate repo_config (outcome i) ex of
        Inl e \<Rightarrow> Inl e
      | Inr ex' \<Rightarrow> process_candidates outcome (Suc i) rest ex')"

subsection \<open>_process_research_job\<close>

text \<open>
  \<open>github_configured\<close> tells whether \<^verbatim>\<open>self.github_handler\<close> is set, \<open>now\<close> is the value
  of \<^verbatim>\<open>datetime.now()\<close> at the end. \<open>finish_job\<close> is the code after the loop
  (\<^verbatim>\<open># Update job status\<close>), \<open>fail_job\<close> the outer exception handler.
\<close>

definition finish_job :: "nat \<Rightarrow> execution \<Rightarrow> execution" where
  "finish_job now ex =
     (let ex1 =
            (if truthy (pull_requests (current ex)) then set_status Completed ex
             else
               let ex' = set_status Failed ex
               in if \<not> truthy (error_message (current ex'))
                  then set_error_message ''No pull requests created'' ex'
                  else ex')
      in set_completed_at now ex1)"

definition fail_job :: "nat \<Rightarrow> string \<Rightarrow> execution \<Rightarrow> execution" where
  "fail_job now m ex = set_completed_at now (set_error_message m (set_status Failed ex))"

definition start_job :: "research_job \<Rightarrow> execution" where
  "start_job job0 = set_status Analyzing \<lparr>current = job0, history = []\<rparr>"

definition process_research_job ::
  "bool \<Rightarrow> nat \<Rightarrow> (nat \<Rightarrow> candidate_outcome) \<Rightarrow> research_job \<Rightarrow> execution" where
  "process_research_job github_configured now outcome job0 =
     (let ex0 = start_job job0
      in if \<not> github_configured then
           set_error_message ''GitHub handler not configured'' (set_status Failed ex0)
         else
           let relevant_repos =
                 identify_relevant_repositories (alert job0) (repositories job0)
           in if relevant_repos = [] then
                set_error_message ''No relevant repositories found'' (set_status Failed ex0)
              else
                (case process_candidates outcome 0 (take 2 relevant_repos) ex0 of
                   Inl (m, ex) \<Rightarrow> fail_job now m ex
                 | Inr ex \<Rightarrow> finish_job now ex))"

subsection \<open>Reading a history\<close>

text \<open>
  The jobs after each assignment, the jobs at the suspension points, the candidates
  visited and the number of assignments to \<^verbatim>\<open>completed_at\<close>.
\<close>

fun assigned :: "step list \<Rightarrow> research_job list" where
  "assigned [] = []"
| "assigned (Assign f j # rest) = j # assigned rest"
| "assigned (Suspend j # rest) = assigned rest"
| "assigned (Visit r # rest) = assigned rest"

fun suspended :: "step list \<Rightarrow> research_job list" where
  "suspended [] = []"
| "suspended (Assign f j # rest) = suspended rest"
| "suspended (Suspend j # rest) = j # suspended rest"
| "suspended (Visit r # rest) = suspended rest"

fun visited :: "step list \<Rightarrow> repository_config list" where
  "visited [] = []"
| "visited (Assign f j # rest) = visited rest"
| "visited (Suspend j # rest) = visited rest"
| "visited (Visit r # rest) = r # visited rest"

fun assignments_to :: "job_field \<Rightarrow> step list \<Rightarrow> nat" where
  "assignments_to f [] = 0"
| "assignments_to f (Assign g j # rest) = (if g = f then 1 else 0) + assignments_to f rest"
| "assignments_to f (Suspend j # rest) = assignments_to f rest"
| "assignments_to f (Visit r # rest) = assignments_to f rest"

text \<open>
  The status values that the job takes, in order, without immediate repetitions,
  starting with the status it was created with.
\<close>

definition status_sequence :: "research_job \<Rightarrow> execution \<Rightarrow> job_status list" where
  "status_sequence job0 ex = remdups_adj (map status (job0 # assigned (history ex)))"

text \<open>
  What a caller can read: the job as created, then the job at each suspension point
  of the task, then the job as the task left it, which nothing mutates afterwards.
  \<open>snapshot_at job0 ex t\<close> is the job read at the \<open>t\<close>-th of these instants.
\<close>

definition snapshot_at :: "research_job \<Rightarrow> execution \<Rightarrow> nat \<Rightarrow> research_job" where
  "snapshot_at job0 ex t =
     (let readable = job0 # suspended (history ex)
      in if t < length readable then readable ! t else current ex)"

definition terminal :: "job_status \<Rightarrow> bool" where
  "terminal s = (s = Completed \<or> s = Failed)"

subsection \<open>The status diagrams\<close>



subsection \<open>The invariant of the loop\<close>

text \<open>
  \<open>consistent\<close>: the job of an execution is the job after the last assignment of its
  history. \<open>loop_invariant\<close> holds before and after every iteration of the loop over the
  candidates: the status has gone from pending to analyzing and possibly on to
  creating_prs, no suspension point shows a terminal status, \<^verbatim>\<open>completed_at\<close> has not
  been assigned, and a non-empty list of pull requests implies the status creating_prs.
\<close>

definition consistent :: "research_job \<Rightarrow> execution \<Rightarrow> bool" where
  "consistent job0 ex \<longleftrightarrow> current ex = last (job0 # assigned (history ex))"

definition loop_invariant :: "research_job \<Rightarrow> execution \<Rightarrow> bool" where
  "loop_invariant job0 ex \<longleftrightarrow>
     consistent job0 ex
     \<and> (status_sequence job0 ex = [Pending, Analyzing]
        \<or> status_sequence job0 ex = [Pending, Analyzing, Creating_prs])
     \<and> list_all (\<lambda>j. \<not> terminal (status j)) (suspended (history ex))
     \<and> assignments_to Completed_at_field (history ex) = 0
     \<and> (truthy (pull_requests (current ex)) \<longrightarrow> status (current ex) = Creating_prs)"

section \<open>Example inputs\<close>

definition example_alert :: cloudwatch_alert where
  "example_alert =
     \<lparr>alarm_name = ''HighErrorRate-Lambda-Function'', alarm_description = '''',
      metric_name = ''ErrorRate'', namespace = ''AWS/Lambda'', timestamp = '''',
      state = ''ALARM'', reason = '''', region = '''', account_id = ''''\<rparr>"

definition example_repo :: "string \<Rightarrow> string list \<Rightarrow> string \<Rightarrow> repository_config" where
  "example_repo n kws p =
     \<lparr>owner = ''acme'', name = n, access_token = '''', branch = ''main'',
      file_patterns = [], alert_keywords = kws, priority = p\<rparr>"

definition example_repos :: "repository_config list" where
  "example_repos =
     [example_repo ''billing'' [] ''low'',
      example_repo ''db-tools'' [''database''] ''medium'',
      example_repo ''frontend'' [] ''low'',
      example_repo ''lambda-svc'' [''lambda'', ''errorrate''] ''high'',
      example_repo ''infra'' [''aws''] ''high'']"

text \<open>
  A job for the example alert, and collaborators for which the clone of the first
  candidate raises and the second candidate succeeds from the clone to the pull request.
\<close>

definition example_job :: research_job where
  "example_job = new_job ''job-1'' example_alert example_repos 100"

definition example_result :: orchestrator_result where
  "example_result = \<lparr>analysis_complete = True, fix_proposals = [''patch'']\<rparr>"

definition example_outcome :: "nat \<Rightarrow> candidate_outcome" where
  "example_outcome i =
     (if i = 0 then Clone_raises ''clone failed''
      else Analyzed example_result (Inr ''https://github.com/acme/infra/pull/1''))"

definition no_fix_outcome :: "nat \<Rightarrow> candidate_outcome" where
  "no_fix_outcome i = Analyzed \<lparr>analysis_complete = False, fix_proposals = []\<rparr> (Inr '''')"

text \<open>
  Two alarm payloads, the second with a field named Message, and stand-ins for
  \<^verbatim>\<open>json.dumps\<close> and \<^verbatim>\<open>json.loads\<close> on them (the texts are written without their
  quotation marks).
\<close>

definition example_payload :: "string \<rightharpoonup> string" where
  "example_payload = [''AlarmName'' \<mapsto> ''X'']"

definition example_bad_payload :: "string \<rightharpoonup> string" where
  "example_bad_payload = [''AlarmName'' \<mapsto> ''X'', ''Message'' \<mapsto> ''{}'']"

definition example_dumps :: "(string \<rightharpoonup> string) \<Rightarrow> string" where
  "example_dumps P =
     (if P ''Message'' = None then ''{AlarmName: X}'' else ''{AlarmName: X, Message: {}}'')"

definition example_loads :: "string \<Rightarrow> loaded" where
  "example_loads s =
     (if s = ''{}'' then Loaded_mapping Map.empty
      else if s = ''{AlarmName: X}'' then Loaded_mapping example_payload
      else if s = ''{AlarmName: X, Message: {}}'' then Loaded_mapping example_bad_payload
      else Decode_error)"

section \<open>Properties of alert validation\<close>

lemma str_in_iff_sublist: "str_in p s \<longleftrightarrow> sublist p s"
proof (induction s)
  case Nil
  then show ?case by simp
next
  case (Cons c cs)
  then show ?case by (simp add: sublist_Cons_right)
qed

lemma no_pattern_matches_iff:
  "no_pattern_matches ps nm \<longleftrightarrow> (\<forall>p \<in> set ps. \<not> str_in p (lower nm))"
  by (induction ps) auto

text \<open>
  C7. \<^verbatim>\<open>validate_alert\<close> accepts an alert exactly when its state is the string ALARM and
  no ignore pattern is a substring of its lower-cased name, where a pattern \<open>p\<close> is a
  substring of \<open>s\<close> when \<open>s = before @ p @ after\<close> for some \<open>before\<close> and \<open>after\<close>. In
  particular an alert in any other state is rejected whatever its other fields and
  whatever the patterns.
\<close>

theorem validate_alert_iff:
  "(validate_alert ignore_patterns a \<longleftrightarrow>
      state a = ''ALARM'' \<and>
      (\<forall>p \<in> set ignore_patterns.
         \<not> (\<exists>before after. lower (alarm_name a) = before @ p @ after)))
   \<and> (state a \<noteq> ''ALARM'' \<longrightarrow> \<not> validate_alert ignore_patterns a)"
  by (simp add: validate_alert_def no_pattern_matches_iff str_in_iff_sublist sublist_def)

theorem validate_alert_iff_witness:
  "validate_alert [''canary'']
     \<lparr>alarm_name = ''HighErrorRate-Lambda'', alarm_description = '''',
      metric_name = ''ErrorRate'', namespace = ''AWS/Lambda'', timestamp = '''',
      state = ''ALARM'', reason = '''', region = '''', account_id = ''''\<rparr>
   \<and> \<not> (\<exists>before after. lower ''HighErrorRate-Lambda'' = before @ ''canary'' @ after)
   \<and> \<not> validate_alert [''canary'']
     \<lparr>alarm_name = ''HighErrorRate-Lambda'', alarm_description = '''',
      metric_name = ''ErrorRate'', namespace = ''AWS/Lambda'', timestamp = '''',
      state = ''OK'', reason = '''', region = '''', account_id = ''''\<rparr>"
proof -
  let ?a = "\<lparr>alarm_name = ''HighErrorRate-Lambda'', alarm_description = '''',
      metric_name = ''ErrorRate'', namespace = ''AWS/Lambda'', timestamp = '''',
      state = ''ALARM'', reason = '''', region = '''', account_id = ''''\<rparr>"
  have v: "validate_alert [''canary''] ?a"
    by code_simp
  show ?thesis
    using v validate_alert_iff [of "[''canary'']" ?a]
      validate_alert_iff [of "[''canary'']" "?a\<lparr>state := ''OK''\<rparr>"]
    by simp
qed

section \<open>Properties of the relevance score\<close>

lemma length_filter_remdups:
  "length (filter (\<lambda>w. w \<in> S) (remdups xs)) = card (set xs \<inter> S)"
proof -
  have "distinct (filter (\<lambda>w. w \<in> S) (remdups xs))" by simp
  then have "length (filter (\<lambda>w. w \<in> S) (remdups xs))
      = card (set (filter (\<lambda>w. w \<in> S) (remdups xs)))"
    by (simp only: distinct_card)
  also have "set (filter (\<lambda>w. w \<in> S) (remdups xs)) = set xs \<inter> S" by auto
  finally show ?thesis .
qed

lemma filter_remdups_Nil:
  "filter (\<lambda>w. w \<in> S) (remdups xs) = [] \<longleftrightarrow> card (set xs \<inter> S) = 0"
  by (simp add: length_filter_remdups [symmetric])

lemma priority_boost_cases:
  "priority_boost p = (if p = ''high'' then 2 / 10 else if p = ''medium'' then 1 / 10 else 0)"
  by (simp add: priority_boost_def)

lemma score_eq_spec:
  assumes "distinct K"
  shows "calculate_relevance_score K r =
     spec_score (set K) (lower ` set (alert_keywords r)) (priority r)
       (set (extract_words_from_text (name r)))"
proof (cases "K = []")
  case True
  then show ?thesis by (simp add: calculate_relevance_score_def spec_score_def)
next
  case False
  have lenK: "length K = card (set K)" using assms by (simp add: distinct_card)
  show ?thesis
    using False
    unfolding calculate_relevance_score_def spec_score_def Let_def
    by (simp add: length_filter_remdups filter_remdups_Nil lenK length_remdups_card_conv
        priority_boost_cases add.commute min.commute)
qed

lemma length_extract_words: "w \<in> set (extract_words_from_text t) \<Longrightarrow> 2 < length w"
  by (simp add: extract_words_from_text_def)

lemma extract_words_empty: "extract_words_from_text [] = []"
  by (simp add: extract_words_from_text_def lower_def)

lemma distinct_extract_alert_keywords: "distinct (extract_alert_keywords a)"
  by (simp add: extract_alert_keywords_def Let_def)

lemma set_extract_alert_keywords:
  "set (extract_alert_keywords a) =
     set (extract_words_from_text (alarm_name a))
     \<union> set (extract_words_from_text (namespace a))
     \<union> set (extract_words_from_text (metric_name a))"
  using length_extract_words
  by (auto simp: extract_alert_keywords_def Let_def extract_words_empty)

text \<open>
  C1. For a keyword list \<open>K\<close> without duplicates (a keyword set) and a repository \<open>r\<close>,
  the computed score is the formula of section 4.1: 0 for empty \<open>K\<close>, else the minimum
  of 1 and the sum of the keyword-overlap term (\<open>|K \<inter> keywords| / |K| * 0.8\<close> when the
  repository has keywords, else 0.3), the priority term (high 0.2, medium 0.1, low 0)
  and the name-overlap term \<open>|K \<inter> nameTokens| / |K| * 0.3\<close>. The code lower-cases the
  repository's keywords before intersecting; for keywords that are lower-case already,
  as the specification's data model has them, this is the keyword set itself. The
  name tokens come from \<^const>\<open>extract_words_from_text\<close>, the tokenizer that also yields
  the alert's keywords from its name, namespace and metric name, and those keywords
  form a set.
\<close>

theorem relevance_score_formula:
  assumes "distinct K"
  shows "calculate_relevance_score K r =
           spec_score (set K) (lower ` set (alert_keywords r)) (priority r)
             (set (extract_words_from_text (name r)))
     \<and> ((\<forall>kw \<in> set (alert_keywords r). lower kw = kw) \<longrightarrow>
          calculate_relevance_score K r =
            spec_score (set K) (set (alert_keywords r)) (priority r)
              (set (extract_words_from_text (name r))))
     \<and> distinct (extract_alert_keywords a)
     \<and> set (extract_alert_keywords a) =
          set (extract_words_from_text (alarm_name a))
          \<union> set (extract_words_from_text (namespace a))
          \<union> set (extract_words_from_text (metric_name a))"
proof -
  have 1: "calculate_relevance_score K r =
           spec_score (set K) (lower ` set (alert_keywords r)) (priority r)
             (set (extract_words_from_text (name r)))"
    using assms by (rule score_eq_spec)
  have 2: "(\<forall>kw \<in> set (alert_keywords r). lower kw = kw) \<longrightarrow>
          lower ` set (alert_keywords r) = set (alert_keywords r)"
    by force
  show ?thesis
    using 1 2 distinct_extract_alert_keywords [of a] set_extract_alert_keywords [of a]
    by auto
qed

theorem relevance_score_formula_witness:
  "distinct [''lambda'', ''error'', ''function'']
   \<and> calculate_relevance_score [''lambda'', ''error'', ''function'']
        (example_repo ''lambda-svc'' [''lambda'', ''error''] ''high'') = 5 / 6
   \<and> spec_score {''lambda'', ''error'', ''function''} {''lambda'', ''error''} ''high''
        {''lambda'', ''svc''} = 5 / 6"
proof -
  let ?K = "[''lambda'', ''error'', ''function'']"
  let ?r = "example_repo ''lambda-svc'' [''lambda'', ''error''] ''high''"
  have d: "distinct ?K" by simp
  have lc: "\<forall>kw \<in> set (alert_keywords ?r). lower kw = kw"
    by (simp add: example_repo_def lower_def lower_char_def)
  have v: "calculate_relevance_score ?K ?r = 5 / 6" by code_simp
  have nt: "extract_words_from_text (name ?r) = [''lambda'', ''svc'']" by code_simp
  have kw: "alert_keywords ?r = [''lambda'', ''error'']" "priority ?r = ''high''"
    by (simp_all add: example_repo_def)
  from relevance_score_formula [OF d, of ?r example_alert] lc
  have "calculate_relevance_score ?K ?r =
            spec_score (set ?K) (set (alert_keywords ?r)) (priority ?r)
              (set (extract_words_from_text (name ?r)))"
    by blast
  then show ?thesis
    using d v unfolding nt kw by simp
qed

section \<open>Properties of the ranking\<close>

lemma collect_relevant_filter:
  "collect_relevant K repos =
     filter (\<lambda>e. snd e > 1 / 10) (map (\<lambda>r. (r, calculate_relevance_score K r)) repos)"
  by (induction repos) (simp_all add: Let_def)


lemma rank_sorted:
  "sorted_wrt (\<lambda>x y. snd x \<ge> snd y) (rank_repositories K repos)"
proof -
  have "sorted (map (\<lambda>x. - snd x) (sort_key (\<lambda>x. - snd x) (collect_relevant K repos)))"
    by (rule sorted_sort_key)
  then have "sorted_wrt (\<lambda>x y. snd x \<ge> snd y)
      (sort_key (\<lambda>x. - snd x) (collect_relevant K repos))"
    by (simp add: sorted_map)
  then show ?thesis
    unfolding rank_repositories_def sort_by_score_desc_def by (rule sorted_wrt_take)
qed








lemma score_lower_bound_no_keywords:
  assumes "K \<noteq> []" "alert_keywords r = []"
  shows "3 / 10 \<le> calculate_relevance_score K r"
proof -
  have "0 \<le> priority_boost (priority r)" by (simp add: priority_boost_def)
  then show ?thesis
    using assms unfolding calculate_relevance_score_def Let_def
    by (auto simp: min_def intro: add_increasing2)
qed

lemma mem_rank_if_short:
  assumes "length (collect_relevant K repos) \<le> 3"
  shows "set (rank_repositories K repos) = set (collect_relevant K repos)"
  using assms by (simp add: rank_repositories_def sort_by_score_desc_def)

text \<open>
  C10. For a non-empty keyword list, a repository configured without keywords scores
  at least 0.3, hence more than the threshold 0.1: when it is among the input
  repositories it passes the threshold filter, and it can be missing from the ranking
  only when more than three repositories passed the filter, that is, only by the
  truncation to three entries.
\<close>

theorem no_keywords_clears_threshold:
  assumes "K \<noteq> []" "alert_keywords r = []"
  shows "3 / 10 \<le> calculate_relevance_score K r
     \<and> 1 / 10 < calculate_relevance_score K r
     \<and> (r \<in> set repos \<longrightarrow> (r, calculate_relevance_score K r) \<in> set (collect_relevant K repos))
     \<and> (r \<in> set repos \<and> (r, calculate_relevance_score K r) \<notin> set (rank_repositories K repos)
          \<longrightarrow> 3 < length (collect_relevant K repos))"
proof -
  have lb: "3 / 10 \<le> calculate_relevance_score K r"
    using assms by (rule score_lower_bound_no_keywords)
  then have th: "1 / 10 < calculate_relevance_score K r" by simp
  have mem: "r \<in> set repos \<longrightarrow> (r, calculate_relevance_score K r) \<in> set (collect_relevant K repos)"
    using th by (auto simp: collect_relevant_filter)
  have tr: "r \<in> set repos \<and> (r, calculate_relevance_score K r) \<notin> set (rank_repositories K repos)
          \<longrightarrow> 3 < length (collect_relevant K repos)"
    using mem mem_rank_if_short [of K repos] by (metis not_le_imp_less)
  show ?thesis using lb th mem tr by blast
qed

theorem no_keywords_clears_threshold_witness:
  "extract_alert_keywords example_alert \<noteq> []
   \<and> alert_keywords (example_repo ''frontend'' [] ''low'') = []
   \<and> 3 / 10 \<le> calculate_relevance_score (extract_alert_keywords example_alert)
        (example_repo ''frontend'' [] ''low'')
   \<and> (example_repo ''frontend'' [] ''low'',
        calculate_relevance_score (extract_alert_keywords example_alert)
          (example_repo ''frontend'' [] ''low''))
      \<in> set (collect_relevant (extract_alert_keywords example_alert) example_repos)
   \<and> 3 < length (collect_relevant (extract_alert_keywords example_alert) example_repos)"
proof -
  let ?K = "extract_alert_keywords example_alert"
  let ?r = "example_repo ''frontend'' [] ''low''"
  have k: "?K \<noteq> []" by code_simp
  have e: "alert_keywords ?r = []" by (simp add: example_repo_def)
  have m: "?r \<in> set example_repos" by (simp add: example_repos_def)
  have s: "calculate_relevance_score ?K ?r = 3 / 10" by code_simp
  have out: "rank_repositories ?K example_repos =
     [(example_repo ''lambda-svc'' [''lambda'', ''errorrate''] ''high'', 29 / 50),
      (example_repo ''infra'' [''aws''] ''high'', 9 / 25),
      (example_repo ''billing'' [] ''low'', 3 / 10)]"
    by code_simp
  have absent: "(?r, calculate_relevance_score ?K ?r) \<notin> set (rank_repositories ?K example_repos)"
    unfolding s out by (simp add: example_repo_def)
  show ?thesis
    using no_keywords_clears_threshold [OF k e, of example_repos] k e m absent by blast
qed

section \<open>Properties of alert parsing\<close>

lemma from_sns_message_direct:
  "sns_message ''Message'' = None \<Longrightarrow>
   from_sns_message json_loads sns_message = Inr (alert_of_mapping sns_message)"
  by (simp add: from_sns_message_def)

lemma from_sns_message_wrapped:
  "sns_message ''Message'' = Some msg \<Longrightarrow> json_loads msg = Loaded_mapping message_data \<Longrightarrow>
   from_sns_message json_loads sns_message = Inr (alert_of_mapping message_data)"
  by (simp add: from_sns_message_def)

lemma dict_get_missing: "d k = None \<Longrightarrow> dict_get d k dflt = dflt"
  by (simp add: dict_get_def)

text \<open>
  C8, as stated, fails: the code takes a mapping for an envelope as soon as it has a
  field named Message. For the payload \<open>{AlarmName: X, Message: {}}\<close> the direct parse
  decodes the Message field, the empty object, and yields an alert without a name,
  while the parse of the envelope around the payload yields the alert named X.
\<close>

theorem sns_wrapped_equals_direct_counterexample:
  "example_loads (example_dumps example_bad_payload) = Loaded_mapping example_bad_payload
   \<and> from_sns_message example_loads example_bad_payload
       \<noteq> from_sns_message example_loads [''Message'' \<mapsto> example_dumps example_bad_payload]
   \<and> from_sns_message example_loads example_bad_payload = Inr (alert_of_mapping Map.empty)
   \<and> alarm_name (alert_of_mapping Map.empty) = ''''
   \<and> from_sns_message example_loads [''Message'' \<mapsto> example_dumps example_bad_payload]
       = Inr (alert_of_mapping example_bad_payload)
   \<and> alarm_name (alert_of_mapping example_bad_payload) = ''X''"
proof -
  have d: "example_dumps example_bad_payload = ''{AlarmName: X, Message: {}}''"
    by (simp add: example_dumps_def example_bad_payload_def)
  have l: "example_loads ''{AlarmName: X, Message: {}}'' = Loaded_mapping example_bad_payload"
    by (simp add: example_loads_def)
  have e: "example_loads ''{}'' = Loaded_mapping Map.empty"
    by (simp add: example_loads_def)
  have direct: "from_sns_message example_loads example_bad_payload
      = Inr (alert_of_mapping Map.empty)"
    by (rule from_sns_message_wrapped [where msg = "''{}''"])
       (simp_all add: example_bad_payload_def e)
  have wrapped: "from_sns_message example_loads [''Message'' \<mapsto> example_dumps example_bad_payload]
      = Inr (alert_of_mapping example_bad_payload)"
    by (rule from_sns_message_wrapped [where msg = "''{AlarmName: X, Message: {}}''"])
       (simp_all add: d l)
  have n1: "alarm_name (alert_of_mapping Map.empty) = ''''"
    by (simp add: alert_of_mapping_def dict_get_def)
  have n2: "alarm_name (alert_of_mapping example_bad_payload) = ''X''"
    by (simp add: alert_of_mapping_def dict_get_def example_bad_payload_def)
  have "alert_of_mapping Map.empty \<noteq> alert_of_mapping example_bad_payload"
    using n1 n2 by auto
  then show ?thesis
    using d l direct wrapped n1 n2 by simp
qed

text \<open>
  C8, amended. For every alarm payload \<open>P\<close> given as a mapping that has no field named
  Message, and JSON decoding that inverts the encoding of \<open>P\<close>, parsing \<open>P\<close> directly and
  parsing an envelope whose Message field holds the JSON encoding of \<open>P\<close> (the envelope
  with this field alone, or with further fields) produce identical alerts, without
  error, and every field missing from \<open>P\<close> is the empty string.
\<close>

theorem sns_wrapped_equals_direct:
  assumes "json_loads (json_dumps P) = Loaded_mapping P"
    and "P ''Message'' = None"
    and "envelope ''Message'' = Some (json_dumps P)"
  shows "from_sns_message json_loads [''Message'' \<mapsto> json_dumps P]
           = from_sns_message json_loads P
     \<and> from_sns_message json_loads envelope = from_sns_message json_loads P
     \<and> from_sns_message json_loads P = Inr (alert_of_mapping P)
     \<and> (P ''AlarmName'' = None \<longrightarrow> alarm_name (alert_of_mapping P) = '''')
     \<and> (P ''AlarmDescription'' = None \<longrightarrow> alarm_description (alert_of_mapping P) = '''')
     \<and> (P ''MetricName'' = None \<longrightarrow> metric_name (alert_of_mapping P) = '''')
     \<and> (P ''Namespace'' = None \<longrightarrow> namespace (alert_of_mapping P) = '''')
     \<and> (P ''StateChangeTime'' = None \<longrightarrow> timestamp (alert_of_mapping P) = '''')
     \<and> (P ''NewStateValue'' = None \<longrightarrow> state (alert_of_mapping P) = '''')
     \<and> (P ''NewStateReason'' = None \<longrightarrow> reason (alert_of_mapping P) = '''')
     \<and> (P ''Region'' = None \<longrightarrow> region (alert_of_mapping P) = '''')
     \<and> (P ''AWSAccountId'' = None \<longrightarrow> account_id (alert_of_mapping P) = '''')"
proof -
  have direct: "from_sns_message json_loads P = Inr (alert_of_mapping P)"
    using assms(2) by (rule from_sns_message_direct)
  have single: "from_sns_message json_loads [''Message'' \<mapsto> json_dumps P]
      = Inr (alert_of_mapping P)"
    by (rule from_sns_message_wrapped [where msg = "json_dumps P"]) (simp_all add: assms(1))
  have env: "from_sns_message json_loads envelope = Inr (alert_of_mapping P)"
    using assms(3) assms(1) by (rule from_sns_message_wrapped)
  have fields:
    "P ''AlarmName'' = None \<longrightarrow> alarm_name (alert_of_mapping P) = ''''"
    "P ''AlarmDescription'' = None \<longrightarrow> alarm_description (alert_of_mapping P) = ''''"
    "P ''MetricName'' = None \<longrightarrow> metric_name (alert_of_mapping P) = ''''"
    "P ''Namespace'' = None \<longrightarrow> namespace (alert_of_mapping P) = ''''"
    "P ''StateChangeTime'' = None \<longrightarrow> timestamp (alert_of_mapping P) = ''''"
    "P ''NewStateValue'' = None \<longrightarrow> state (alert_of_mapping P) = ''''"
    "P ''NewStateReason'' = None \<longrightarrow> reason (alert_of_mapping P) = ''''"
    "P ''Region'' = None \<longrightarrow> region (alert_of_mapping P) = ''''"
    "P ''AWSAccountId'' = None \<longrightarrow> account_id (alert_of_mapping P) = ''''"
    by (simp_all add: alert_of_mapping_def dict_get_missing)
  show ?thesis
    using direct single env fields by simp
qed

theorem sns_wrapped_equals_direct_witness:
  "example_loads (example_dumps example_payload) = Loaded_mapping example_payload
   \<and> example_payload ''Message'' = None
   \<and> from_sns_message example_loads [''Message'' \<mapsto> example_dumps example_payload]
       = from_sns_message example_loads example_payload
   \<and> from_sns_message example_loads example_payload = Inr (alert_of_mapping example_payload)
   \<and> alarm_name (alert_of_mapping example_payload) = ''X''
   \<and> state (alert_of_mapping example_payload) = ''''"
proof -
  have h1: "example_loads (example_dumps example_payload) = Loaded_mapping example_payload"
    by (simp add: example_loads_def example_dumps_def example_payload_def)
  have h2: "example_payload ''Message'' = None"
    by (simp add: example_payload_def)
  have h3: "[''Message'' \<mapsto> example_dumps example_payload] ''Message''
      = Some (example_dumps example_payload)"
    by simp
  have s: "example_payload ''NewStateValue'' = None"
    by (simp add: example_payload_def)
  have n: "alarm_name (alert_of_mapping example_payload) = ''X''"
    by (simp add: alert_of_mapping_def dict_get_def example_payload_def)
  show ?thesis
    using sns_wrapped_equals_direct [where json_loads = example_loads
        and json_dumps = example_dumps and P = example_payload
        and envelope = "[''Message'' \<mapsto> example_dumps example_payload]", OF h1 h2 h3]
      h1 h2 s n
    by simp
qed

section \<open>Executions and the invariant of the loop\<close>

lemma assigned_append: "assigned (xs @ ys) = assigned xs @ assigned ys"
  by (induction xs rule: assigned.induct) simp_all

lemma suspended_append: "suspended (xs @ ys) = suspended xs @ suspended ys"
  by (induction xs rule: suspended.induct) simp_all

lemma visited_append: "visited (xs @ ys) = visited xs @ visited ys"
  by (induction xs rule: visited.induct) simp_all

lemma assignments_to_append:
  "assignments_to f (xs @ ys) = assignments_to f xs + assignments_to f ys"
  by (induction f xs rule: assignments_to.induct) simp_all

lemma current_assign: "current (assign f upd ex) = upd (current ex)"
  by (simp add: assign_def Let_def)

lemma history_assign: "history (assign f upd ex) = history ex @ [Assign f (upd (current ex))]"
  by (simp add: assign_def Let_def)

lemma current_suspend: "current (suspend ex) = current ex"
  by (simp add: suspend_def)

lemma history_suspend: "history (suspend ex) = history ex @ [Suspend (current ex)]"
  by (simp add: suspend_def)

lemma current_visit: "current (visit r ex) = current ex"
  by (simp add: visit_def)

lemma history_visit: "history (visit r ex) = history ex @ [Visit r]"
  by (simp add: visit_def)

lemmas exec_simps =
  current_assign history_assign current_suspend history_suspend current_visit history_visit
  assigned_append suspended_append visited_append assignments_to_append
  set_status_def set_error_message_def set_completed_at_def

lemma remdups_adj_snoc:
  "xs \<noteq> [] \<Longrightarrow> remdups_adj (xs @ [y]) = (if last xs = y then remdups_adj xs else remdups_adj xs @ [y])"
proof -
  assume "xs \<noteq> []"
  then have xs: "xs = butlast xs @ [last xs]" by simp
  have "remdups_adj (butlast xs @ [last xs, y])
      = remdups_adj (butlast xs @ [last xs]) @ (if last xs = y then [] else [y])"
    by (rule remdups_adj_append_two)
  then show ?thesis using xs by (metis append.assoc append_Cons append_Nil append_Nil2)
qed

lemma status_sequence_assign:
  assumes "consistent job0 ex"
  shows "status_sequence job0 (assign f upd ex) =
     (if status (upd (current ex)) = status (current ex) then status_sequence job0 ex
      else status_sequence job0 ex @ [status (upd (current ex))])"
proof -
  let ?xs = "map status (job0 # assigned (history ex))"
  have ne: "?xs \<noteq> []" by simp
  have l: "last ?xs = status (current ex)"
    using assms unfolding consistent_def by (simp only: last_map [OF list.distinct(2)])
  have "status_sequence job0 (assign f upd ex) = remdups_adj (?xs @ [status (upd (current ex))])"
    by (simp add: status_sequence_def exec_simps)
  also have "\<dots> = (if last ?xs = status (upd (current ex)) then remdups_adj ?xs
      else remdups_adj ?xs @ [status (upd (current ex))])"
    using ne by (rule remdups_adj_snoc)
  finally show ?thesis unfolding l status_sequence_def by auto
qed

lemma status_sequence_suspend: "status_sequence job0 (suspend ex) = status_sequence job0 ex"
  by (simp add: status_sequence_def exec_simps)

lemma status_sequence_visit: "status_sequence job0 (visit r ex) = status_sequence job0 ex"
  by (simp add: status_sequence_def exec_simps)

lemma consistent_assign: "consistent job0 (assign f upd ex)"
  by (simp add: consistent_def exec_simps)

lemma consistent_suspend: "consistent job0 ex \<Longrightarrow> consistent job0 (suspend ex)"
  by (simp add: consistent_def exec_simps)

lemma consistent_visit: "consistent job0 ex \<Longrightarrow> consistent job0 (visit r ex)"
  by (simp add: consistent_def exec_simps)

lemma status_last_sequence:
  assumes "consistent job0 ex"
  shows "status (current ex) = last (status_sequence job0 ex)"
proof -
  have "last (map status (job0 # assigned (history ex))) = status (last (job0 # assigned (history ex)))"
    by (rule last_map) simp
  then show ?thesis using assms by (simp add: status_sequence_def consistent_def)
qed

lemma inv_consistent: "loop_invariant job0 ex \<Longrightarrow> consistent job0 ex"
  by (simp add: loop_invariant_def)

lemma inv_truthy:
  "loop_invariant job0 ex \<Longrightarrow> truthy (pull_requests (current ex)) \<Longrightarrow> status (current ex) = Creating_prs"
  by (simp add: loop_invariant_def)

lemma inv_not_terminal:
  assumes "loop_invariant job0 ex"
  shows "\<not> terminal (status (current ex))"
proof -
  have "status (current ex) = last (status_sequence job0 ex)"
    using assms by (simp add: inv_consistent status_last_sequence)
  then show ?thesis
    using assms by (auto simp: loop_invariant_def terminal_def)
qed

text \<open>Invariant preservation by the three basic operations.\<close>

lemma inv_visit: "loop_invariant job0 ex \<Longrightarrow> loop_invariant job0 (visit r ex)"
  by (simp add: loop_invariant_def status_sequence_visit consistent_visit exec_simps)

lemma inv_suspend: "loop_invariant job0 ex \<Longrightarrow> loop_invariant job0 (suspend ex)"
  using inv_not_terminal [of job0 ex]
  by (simp add: loop_invariant_def status_sequence_suspend consistent_suspend exec_simps)

lemma inv_assign_other:
  assumes "loop_invariant job0 ex" "f \<noteq> Completed_at_field"
    "status (upd (current ex)) = status (current ex)"
    "pull_requests (upd (current ex)) = pull_requests (current ex)
     \<or> status (current ex) = Creating_prs"
  shows "loop_invariant job0 (assign f upd ex)"
proof -
  have c: "consistent job0 ex" using assms(1) by (rule inv_consistent)
  have t: "truthy (pull_requests (upd (current ex))) \<longrightarrow> status (upd (current ex)) = Creating_prs"
    using assms(3,4) inv_truthy [OF assms(1)] by auto
  show ?thesis
    using assms(1,2,3) t unfolding loop_invariant_def
    by (simp add: status_sequence_assign [OF c] consistent_assign exec_simps)
qed

lemma inv_set_creating:
  assumes "loop_invariant job0 ex"
  shows "loop_invariant job0 (set_status Creating_prs ex)"
proof -
  have c: "consistent job0 ex" using assms by (rule inv_consistent)
  have l: "status (current ex) = last (status_sequence job0 ex)"
    using c by (rule status_last_sequence)
  show ?thesis
    using assms l unfolding loop_invariant_def set_status_def
    by (auto simp: status_sequence_assign [OF c] consistent_assign exec_simps)
qed

lemma inv_set_error:
  "loop_invariant job0 ex \<Longrightarrow> loop_invariant job0 (set_error_message m ex)"
  unfolding set_error_message_def
  by (rule inv_assign_other) simp_all

lemma inv_process_candidate:
  assumes "loop_invariant job0 ex"
  shows "case process_candidate r oc ex of
           Inl (m, ex') \<Rightarrow> loop_invariant job0 ex'
         | Inr ex' \<Rightarrow> loop_invariant job0 ex'"
proof (cases oc)
  case (Workspace_raises m)
  then show ?thesis using assms by (simp add: inv_visit)
next
  case (Clone_raises m)
  then show ?thesis using assms by (simp add: inv_visit inv_set_error)
next
  case (Analyze_raises m)
  then show ?thesis using assms by (simp add: inv_visit inv_suspend inv_set_error)
next
  case (Analyzed res pr)
  let ?ex1 = "assign Orchestrator_response_field (\<lambda>j. j\<lparr>orchestrator_response := Some res\<rparr>)
                  (suspend (visit r ex))"
  have i0: "loop_invariant job0 (suspend (visit r ex))"
    using assms by (simp add: inv_visit inv_suspend)
  have i1: "loop_invariant job0 ?ex1"
    using i0 by (rule inv_assign_other) simp_all
  let ?ex2 = "set_status Creating_prs ?ex1"
  have i2: "loop_invariant job0 ?ex2" using i1 by (rule inv_set_creating)
  let ?ex3 = "suspend ?ex2"
  have i3: "loop_invariant job0 ?ex3" using i2 by (rule inv_suspend)
  have s3: "status (current ?ex3) = Creating_prs" by (simp add: exec_simps)
  let ?ex4 = "if \<not> truthy (pull_requests (current ?ex3))
              then assign Pull_requests_field (\<lambda>j. j\<lparr>pull_requests := Some []\<rparr>) ?ex3 else ?ex3"
  have i4a: "loop_invariant job0 (assign Pull_requests_field (\<lambda>j. j\<lparr>pull_requests := Some []\<rparr>) ?ex3)"
    using i3 by (rule inv_assign_other) (simp_all add: s3)
  have i4: "loop_invariant job0 ?ex4"
    using i3 i4a by simp
  have s4: "status (current ?ex4) = Creating_prs" by (simp add: exec_simps)
  have i5: "loop_invariant job0 (assign Pull_requests_field
               (\<lambda>j. j\<lparr>pull_requests := map_option (\<lambda>l. l @ [u]) (pull_requests j)\<rparr>) ?ex4)" for u
    using i4 by (rule inv_assign_other) (simp_all add: s4)
  have ie: "loop_invariant job0 (set_error_message m ?ex3)" for m
    using i3 by (rule inv_set_error)
  show ?thesis
  proof (cases pr)
    case (Inl m)
    show ?thesis
      unfolding Analyzed Inl using i1 i2 ie [of m] by (simp add: Let_def)
  next
    case (Inr u)
    show ?thesis
      unfolding Analyzed Inr using i1 i2 i5 [of u] by (simp add: Let_def)
  qed
qed

lemma inv_process_candidates:
  assumes "loop_invariant job0 ex"
  shows "case process_candidates outcome i cands ex of
           Inl (m, ex') \<Rightarrow> loop_invariant job0 ex'
         | Inr ex' \<Rightarrow> loop_invariant job0 ex'"
  using assms
proof (induction cands arbitrary: i ex)
  case Nil
  then show ?case by simp
next
  case (Cons c cands)
  obtain r s where c: "c = (r, s)" by (cases c)
  show ?case
  proof (cases "process_candidate r (outcome i) ex")
    case (Inl e)
    then show ?thesis
      using inv_process_candidate [OF Cons.prems, of r "outcome i"] by (simp add: c)
  next
    case (Inr ex')
    then have "loop_invariant job0 ex'"
      using inv_process_candidate [OF Cons.prems, of r "outcome i"] by simp
    then show ?thesis
      using Cons.IH [of ex' "Suc i"] Inr by (simp add: c)
  qed
qed

lemma inv_start: "loop_invariant (new_job jid a repos t0) (start_job (new_job jid a repos t0))"
  by (simp add: loop_invariant_def consistent_def start_job_def status_sequence_def exec_simps
      new_job_def truthy_def)

section \<open>The status path of a job\<close>

text \<open>The four ways a run ends.\<close>

lemma run_cases:
  fixes job0 g now oc
  defines "rel \<equiv> identify_relevant_repositories (alert job0) (repositories job0)"
  obtains
    (unconfigured) "\<not> g"
      "process_research_job g now oc job0 =
         set_error_message ''GitHub handler not configured'' (set_status Failed (start_job job0))"
  | (irrelevant) "g" "rel = []"
      "process_research_job g now oc job0 =
         set_error_message ''No relevant repositories found'' (set_status Failed (start_job job0))"
  | (raised) m ex where "g" "rel \<noteq> []"
      "process_candidates oc 0 (take 2 rel) (start_job job0) = Inl (m, ex)"
      "process_research_job g now oc job0 = fail_job now m ex"
  | (finished) ex where "g" "rel \<noteq> []"
      "process_candidates oc 0 (take 2 rel) (start_job job0) = Inr ex"
      "process_research_job g now oc job0 = finish_job now ex"
proof (cases "\<not> g")
  case True
  then show ?thesis using unconfigured by (simp add: process_research_job_def Let_def)
next
  case g: False
  show ?thesis
  proof (cases "rel = []")
    case True
    then show ?thesis using irrelevant g by (simp add: process_research_job_def Let_def rel_def)
  next
    case False
    show ?thesis
    proof (cases "process_candidates oc 0 (take 2 rel) (start_job job0)")
      case (Inl e)
      obtain m ex where e: "e = (m, ex)" by (cases e)
      show ?thesis
        using raised [of m ex] g False Inl
        by (simp add: process_research_job_def Let_def rel_def e)
    next
      case (Inr ex)
      show ?thesis
        using finished [of ex] g False Inr
        by (simp add: process_research_job_def Let_def rel_def)
    qed
  qed
qed








lemma loop_result_invariant:
  assumes "job0 = new_job jid a repos t0"
  shows "process_candidates oc i cands (start_job job0) = Inl (m, ex) \<Longrightarrow> loop_invariant job0 ex"
    and "process_candidates oc i cands (start_job job0) = Inr ex \<Longrightarrow> loop_invariant job0 ex"
  using inv_process_candidates [OF inv_start, of jid a repos t0 oc i cands] assms
  by simp_all




section \<open>What callers can read\<close>

text \<open>The code after the loop assigns fields only: it neither suspends nor visits.\<close>

lemma suspended_finish_job: "suspended (history (finish_job now ex)) = suspended (history ex)"
  by (simp add: finish_job_def Let_def exec_simps)

lemma suspended_fail_job: "suspended (history (fail_job now m ex)) = suspended (history ex)"
  by (simp add: fail_job_def exec_simps)

lemma suspended_early:
  "suspended (history (set_error_message m (set_status s ex))) = suspended (history ex)"
  by (simp add: exec_simps)

lemma visited_finish_job: "visited (history (finish_job now ex)) = visited (history ex)"
  by (simp add: finish_job_def Let_def exec_simps)

lemma visited_fail_job: "visited (history (fail_job now m ex)) = visited (history ex)"
  by (simp add: fail_job_def exec_simps)

lemma visited_early:
  "visited (history (set_error_message m (set_status s ex))) = visited (history ex)"
  by (simp add: exec_simps)

lemma status_finish_job:
  "status (current (finish_job now ex)) =
     (if truthy (pull_requests (current ex)) then Completed else Failed)"
  by (simp add: finish_job_def Let_def exec_simps)

lemma status_fail_job: "status (current (fail_job now m ex)) = Failed"
  by (simp add: fail_job_def exec_simps)

lemma suspended_start: "suspended (history (start_job job0)) = []"
  by (simp add: start_job_def exec_simps)

lemma visited_start: "visited (history (start_job job0)) = []"
  by (simp add: start_job_def exec_simps)

lemma inv_suspended:
  "loop_invariant job0 ex \<Longrightarrow> list_all (\<lambda>j. \<not> terminal (status j)) (suspended (history ex))"
  by (simp add: loop_invariant_def)

lemma run_suspended_final:
  fixes jid a repos t0 g now oc
  defines "job0 \<equiv> new_job jid a repos t0"
  defines "run \<equiv> process_research_job g now oc job0"
  shows "list_all (\<lambda>j. \<not> terminal (status j)) (suspended (history run))
     \<and> terminal (status (current run))"
proof -
  have j: "job0 = new_job jid a repos t0" by (simp add: job0_def)
  show ?thesis
  proof (cases g now oc job0 rule: run_cases)
    case unconfigured
    then show ?thesis
      unfolding run_def by (simp add: suspended_early suspended_start exec_simps terminal_def)
  next
    case irrelevant
    then show ?thesis
      unfolding run_def by (simp add: suspended_early suspended_start exec_simps terminal_def)
  next
    case (raised m ex)
    have "loop_invariant job0 ex" using raised(3) by (rule loop_result_invariant(1) [OF j])
    then have "list_all (\<lambda>j. \<not> terminal (status j)) (suspended (history ex))"
      by (rule inv_suspended)
    moreover have "terminal (status (current (fail_job now m ex)))"
      by (simp add: status_fail_job terminal_def)
    ultimately show ?thesis
      unfolding run_def raised(4) by (simp add: suspended_fail_job)
  next
    case (finished ex)
    have "loop_invariant job0 ex" using finished(3) by (rule loop_result_invariant(2) [OF j])
    then have "list_all (\<lambda>j. \<not> terminal (status j)) (suspended (history ex))"
      by (rule inv_suspended)
    moreover have "terminal (status (current (finish_job now ex)))"
      by (simp add: status_finish_job terminal_def)
    ultimately show ?thesis
      unfolding run_def finished(4) by (simp add: suspended_finish_job)
  qed
qed

text \<open>
  C9. What a caller can read of a job is the job as created, the job at each
  suspension point of its task, and the job as the task left it. No suspension point
  shows the status completed or failed: the terminal status, the error message and
  \<^verbatim>\<open>completed_at\<close> are assigned after the last \<^verbatim>\<open>await\<close>, so the terminal status is
  readable only once the task has ended, and every task ends with a terminal status.
  Hence, once a snapshot shows a terminal status, every later snapshot is identical
  to it: no mutation of the job is seen after the terminal status.
\<close>

theorem terminal_snapshots_stable:
  fixes jid a repos t0 g now oc
  defines "job0 \<equiv> new_job jid a repos t0"
  defines "run \<equiv> process_research_job g now oc job0"
  shows "list_all (\<lambda>j. \<not> terminal (status j)) (suspended (history run))
     \<and> terminal (status (current run))
     \<and> (\<forall>t1 t2. t1 \<le> t2 \<and> terminal (status (snapshot_at job0 run t1))
          \<longrightarrow> snapshot_at job0 run t2 = snapshot_at job0 run t1)"
proof -
  have sf: "list_all (\<lambda>j. \<not> terminal (status j)) (suspended (history run))"
    and tf: "terminal (status (current run))"
    using run_suspended_final [of g now oc jid a repos t0] by (simp_all add: run_def job0_def)
  let ?readable = "job0 # suspended (history run)"
  have nt: "list_all (\<lambda>j. \<not> terminal (status j)) ?readable"
    using sf by (simp add: job0_def new_job_def terminal_def)
  have late: "length ?readable \<le> t" if "terminal (status (snapshot_at job0 run t))" for t
  proof (rule ccontr)
    assume "\<not> length ?readable \<le> t"
    then have lt: "t < length ?readable" by simp
    then have "snapshot_at job0 run t = ?readable ! t"
      by (simp add: snapshot_at_def Let_def)
    moreover have "\<not> terminal (status (?readable ! t))"
      using nt lt unfolding list_all_length by blast
    ultimately show False using that by simp
  qed
  have stable: "snapshot_at job0 run t2 = snapshot_at job0 run t1"
    if "t1 \<le> t2" "terminal (status (snapshot_at job0 run t1))" for t1 t2
  proof -
    have "length ?readable \<le> t1" using that(2) by (rule late)
    then show ?thesis using that(1) by (simp add: snapshot_at_def Let_def)
  qed
  show ?thesis using sf tf stable by blast
qed

theorem terminal_snapshots_stable_witness:
  "(3::nat) \<le> 7
   \<and> terminal (status (snapshot_at example_job
        (process_research_job True 200 example_outcome example_job) 3))
   \<and> snapshot_at example_job (process_research_job True 200 example_outcome example_job) 7
       = snapshot_at example_job (process_research_job True 200 example_outcome example_job) 3
   \<and> status (snapshot_at example_job
        (process_research_job True 200 example_outcome example_job) 2) = Creating_prs"
proof -
  have l: "(3::nat) \<le> 7" by simp
  have t: "terminal (status (snapshot_at example_job
        (process_research_job True 200 example_outcome example_job) 3))"
    by code_simp
  have c: "status (snapshot_at example_job
        (process_research_job True 200 example_outcome example_job) 2) = Creating_prs"
    by code_simp
  have "snapshot_at example_job (process_research_job True 200 example_outcome example_job) 7
       = snapshot_at example_job (process_research_job True 200 example_outcome example_job) 3"
    using terminal_snapshots_stable [where jid = "''job-1''" and a = example_alert
        and repos = example_repos and ?t0.0 = 100 and g = True and now = 200
        and oc = example_outcome] l t
    unfolding example_job_def by blast
  then show ?thesis using l t c by simp
qed

text \<open>
  C6. When the GitHub handler is not configured, the run of a new job has no
  suspension point and visits no candidate: a caller reads the job as created, with
  status pending, and then the job as the task left it, with status failed and the
  fixed error message \<^verbatim>\<open>GitHub handler not configured\<close>. No snapshot shows the status
  analyzing: the assignment of analyzing at the start of the task is overwritten
  before the task can be suspended.
\<close>

theorem unconfigured_fails_directly:
  fixes jid a repos t0 now oc
  defines "job0 \<equiv> new_job jid a repos t0"
  defines "run \<equiv> process_research_job False now oc job0"
  shows "status job0 = Pending
     \<and> suspended (history run) = []
     \<and> visited (history run) = []
     \<and> status (current run) = Failed
     \<and> error_message (current run) = Some ''GitHub handler not configured''
     \<and> (\<forall>t. snapshot_at job0 run t = (if t = 0 then job0 else current run))
     \<and> (\<forall>t. status (snapshot_at job0 run t) \<noteq> Analyzing)"
proof -
  have r: "run = set_error_message ''GitHub handler not configured''
                   (set_status Failed (start_job job0))"
    by (simp add: run_def process_research_job_def Let_def)
  have s: "suspended (history run) = []"
    unfolding r by (simp add: suspended_early suspended_start)
  have v: "visited (history run) = []"
    unfolding r by (simp add: visited_early visited_start)
  have st: "status (current run) = Failed"
    and em: "error_message (current run) = Some ''GitHub handler not configured''"
    unfolding r by (simp_all add: exec_simps)
  have p: "status job0 = Pending" by (simp add: job0_def new_job_def)
  have snap: "snapshot_at job0 run t = (if t = 0 then job0 else current run)" for t
    by (simp add: snapshot_at_def Let_def s)
  have "status (snapshot_at job0 run t) \<noteq> Analyzing" for t
    unfolding snap using p st by simp
  then show ?thesis using p s v st em snap by blast
qed

theorem unconfigured_fails_directly_witness:
  "status (snapshot_at example_job
      (process_research_job False 200 example_outcome example_job) 0) = Pending
   \<and> status (snapshot_at example_job
      (process_research_job False 200 example_outcome example_job) 1) = Failed
   \<and> error_message (snapshot_at example_job
      (process_research_job False 200 example_outcome example_job) 1)
       = Some ''GitHub handler not configured''"
  using unconfigured_fails_directly [where jid = "''job-1''" and a = example_alert
      and repos = example_repos and ?t0.0 = 100 and now = 200 and oc = example_outcome]
  unfolding example_job_def by simp

section \<open>The loop over the candidates and the final disposition\<close>

text \<open>Only a failing workspace leaves the loop.\<close>

lemma process_candidate_Inr:
  assumes "\<forall>m. oc \<noteq> Workspace_raises m"
  shows "\<exists>ex'. process_candidate r oc ex = Inr ex'"
proof (cases oc)
  case (Workspace_raises m)
  then show ?thesis using assms by simp
next
  case (Clone_raises m)
  then show ?thesis by simp
next
  case (Analyze_raises m)
  then show ?thesis by simp
next
  case (Analyzed res pr)
  then show ?thesis by (cases pr) (simp_all add: Let_def)
qed

lemma process_candidates_Inr:
  assumes "\<forall>k < length cands. \<forall>m. outcome (i + k) \<noteq> Workspace_raises m"
  shows "\<exists>ex'. process_candidates outcome i cands ex = Inr ex'"
  using assms
proof (induction cands arbitrary: i ex)
  case Nil
  then show ?case by simp
next
  case (Cons c cands)
  obtain r s where c: "c = (r, s)" by (cases c)
  have "\<forall>m. outcome i \<noteq> Workspace_raises m"
    using Cons.prems by force
  then obtain ex1 where 1: "process_candidate r (outcome i) ex = Inr ex1"
    using process_candidate_Inr by blast
  have "\<forall>k < length cands. \<forall>m. outcome (Suc i + k) \<noteq> Workspace_raises m"
    using Cons.prems by force
  then obtain ex2 where "process_candidates outcome (Suc i) cands ex1 = Inr ex2"
    using Cons.IH by blast
  then show ?case by (simp add: c 1)
qed

text \<open>Every iteration visits its candidate, whatever happens to it.\<close>

lemma visited_process_candidate:
  "case process_candidate r oc ex of
     Inl (m, ex') \<Rightarrow> visited (history ex') = visited (history ex) @ [r]
   | Inr ex' \<Rightarrow> visited (history ex') = visited (history ex) @ [r]"
proof (cases oc)
  case (Analyzed res pr)
  then show ?thesis by (cases pr) (simp_all add: Let_def exec_simps)
qed (simp_all add: exec_simps)

lemma visited_process_candidates:
  "case process_candidates outcome i cands ex of
     Inl (m, ex') \<Rightarrow> prefix (visited (history ex')) (visited (history ex) @ map fst cands)
   | Inr ex' \<Rightarrow> visited (history ex') = visited (history ex) @ map fst cands"
proof (induction cands arbitrary: i ex)
  case Nil
  then show ?case by simp
next
  case (Cons c cands)
  obtain r s where c: "c = (r, s)" by (cases c)
  show ?case
  proof (cases "process_candidate r (outcome i) ex")
    case (Inl e)
    obtain m ex' where e: "e = (m, ex')" by (cases e)
    have "visited (history ex') = visited (history ex) @ [r]"
      using visited_process_candidate [where r = r and oc = "outcome i" and ex = ex] Inl e by simp
    then show ?thesis by (simp add: c Inl e)
  next
    case (Inr ex1)
    have 1: "visited (history ex1) = visited (history ex) @ [r]"
      using visited_process_candidate [where r = r and oc = "outcome i" and ex = ex] Inr by simp
    show ?thesis
      using Cons.IH [where i = "Suc i" and ex = ex1] by (simp add: c Inr 1 split: sum.splits prod.splits)
  qed
qed

text \<open>The recorded message of each exception of the inner try.\<close>

lemma clone_raises_recorded:
  "\<exists>ex1. process_candidate r (Clone_raises m) ex0 = Inr ex1 \<and> error_message (current ex1) = Some m"
  by (simp add: exec_simps)

lemma analyze_raises_recorded:
  "\<exists>ex1. process_candidate r (Analyze_raises m) ex0 = Inr ex1 \<and> error_message (current ex1) = Some m"
  by (simp add: exec_simps)

lemma pr_raises_recorded:
  "analysis_complete res \<Longrightarrow> fix_proposals res \<noteq> [] \<Longrightarrow>
   \<exists>ex1. process_candidate r (Analyzed res (Inl m)) ex0 = Inr ex1
         \<and> error_message (current ex1) = Some m"
  by (simp add: Let_def exec_simps)

text \<open>The code after the loop.\<close>

lemma finish_job_current:
  "pull_requests (current (finish_job now ex)) = pull_requests (current ex)"
  "completed_at (current (finish_job now ex)) = Some now"
  "error_message (current (finish_job now ex)) =
     (if truthy (pull_requests (current ex)) \<or> truthy (error_message (current ex))
      then error_message (current ex) else Some ''No pull requests created'')"
  by (simp_all add: finish_job_def Let_def exec_simps)

lemma finish_job_count:
  "assignments_to Completed_at_field (history (finish_job now ex)) =
     assignments_to Completed_at_field (history ex) + 1"
  by (simp add: finish_job_def Let_def exec_simps)

lemma finish_job_history:
  "\<exists>j1 mid. history (finish_job now ex) =
       history ex @ Assign Status_field j1 # mid
         @ [Assign Completed_at_field (current (finish_job now ex))]
     \<and> status j1 = status (current (finish_job now ex))
     \<and> suspended mid = [] \<and> assignments_to Status_field mid = 0"
proof (cases "truthy (pull_requests (current ex))")
  case True
  then show ?thesis
    by (intro exI [of _ "(current ex)\<lparr>status := Completed\<rparr>"] exI [of _ "[]"])
       (simp add: finish_job_def Let_def exec_simps)
next
  case False
  show ?thesis
  proof (cases "truthy (error_message (current ex))")
    case True
    with False show ?thesis
      by (intro exI [of _ "(current ex)\<lparr>status := Failed\<rparr>"] exI [of _ "[]"])
         (simp add: finish_job_def Let_def exec_simps)
  next
    case nt: False
    with False show ?thesis
      by (intro exI [of _ "(current ex)\<lparr>status := Failed\<rparr>"]
            exI [of _ "[Assign Error_message_field
                 ((current ex)\<lparr>status := Failed, error_message := Some ''No pull requests created''\<rparr>)]"])
         (simp add: finish_job_def Let_def exec_simps)
  qed
qed

lemma inv_count:
  "loop_invariant job0 ex \<Longrightarrow> assignments_to Completed_at_field (history ex) = 0"
  by (simp add: loop_invariant_def)

lemma truthy_iff: "truthy x \<longleftrightarrow> (\<exists>u us. x = Some (u # us))"
  by (cases x) (auto simp: truthy_def neq_Nil_conv)

text \<open>
  C4. When the GitHub handler is configured, the ranking is not empty and no
  exception escapes the inner \<^verbatim>\<open>try\<close> of the visited candidates, processing reaches
  the end of the candidate iteration, in an execution \<open>ex\<close>. The job then ends
  completed if and only if its list of pull request URLs is not empty, and failed
  otherwise; when it fails, the error message is the one recorded during the
  iteration, or \<^verbatim>\<open>No pull requests created\<close> when none was recorded (an empty message
  counts as none). \<^verbatim>\<open>completed_at\<close> is assigned exactly once in the whole run: by the
  last step, after the assignment of the terminal status, with no suspension point
  and no other status assignment in between.
\<close>

theorem final_disposition:
  fixes jid a repos t0 now oc
  defines "job0 \<equiv> new_job jid a repos t0"
  defines "rel \<equiv> identify_relevant_repositories a repos"
  defines "run \<equiv> process_research_job True now oc job0"
  assumes rel: "rel \<noteq> []"
    and inner: "\<forall>i < length (take 2 rel). \<forall>m. oc i \<noteq> Workspace_raises m"
  shows "\<exists>ex. process_candidates oc 0 (take 2 rel) (start_job job0) = Inr ex
     \<and> (status (current run) = Completed
          \<longleftrightarrow> (\<exists>u us. pull_requests (current run) = Some (u # us)))
     \<and> (status (current run) = Completed \<or> status (current run) = Failed)
     \<and> (status (current run) = Failed \<longrightarrow>
          error_message (current run) =
            (if truthy (error_message (current ex)) then error_message (current ex)
             else Some ''No pull requests created''))
     \<and> pull_requests (current run) = pull_requests (current ex)
     \<and> completed_at (current run) = Some now
     \<and> assignments_to Completed_at_field (history run) = 1
     \<and> (\<exists>j1 mid. history run =
             history ex @ Assign Status_field j1 # mid
               @ [Assign Completed_at_field (current run)]
           \<and> status j1 = status (current run)
           \<and> suspended mid = [] \<and> assignments_to Status_field mid = 0)"
proof -
  have j: "job0 = new_job jid a repos t0" by (simp add: job0_def)
  have ar: "alert job0 = a" "repositories job0 = repos" by (simp_all add: j new_job_def)
  obtain ex where ex: "process_candidates oc 0 (take 2 rel) (start_job job0) = Inr ex"
    using process_candidates_Inr [of "take 2 rel" oc 0 "start_job job0"] inner by auto
  have run: "run = finish_job now ex"
    using rel ex by (simp add: run_def process_research_job_def Let_def ar rel_def)
  have inv: "loop_invariant job0 ex" using ex by (rule loop_result_invariant(2) [OF j])
  have 1: "status (current run) = Completed
          \<longleftrightarrow> (\<exists>u us. pull_requests (current run) = Some (u # us))"
    unfolding run by (simp add: status_finish_job finish_job_current truthy_iff)
  have 2: "status (current run) = Completed \<or> status (current run) = Failed"
    unfolding run by (simp add: status_finish_job)
  have 3: "status (current run) = Failed \<longrightarrow>
          error_message (current run) =
            (if truthy (error_message (current ex)) then error_message (current ex)
             else Some ''No pull requests created'')"
    unfolding run by (simp add: status_finish_job finish_job_current)
  have 4: "pull_requests (current run) = pull_requests (current ex)"
    and 5: "completed_at (current run) = Some now"
    unfolding run by (simp_all add: finish_job_current)
  have 6: "assignments_to Completed_at_field (history run) = 1"
    unfolding run by (simp add: finish_job_count inv_count [OF inv])
  have 7: "\<exists>j1 mid. history run =
             history ex @ Assign Status_field j1 # mid
               @ [Assign Completed_at_field (current run)]
           \<and> status j1 = status (current run)
           \<and> suspended mid = [] \<and> assignments_to Status_field mid = 0"
    unfolding run by (rule finish_job_history)
  show ?thesis using ex 1 2 3 4 5 6 7 by blast
qed

theorem final_disposition_witness:
  "identify_relevant_repositories example_alert example_repos \<noteq> []
   \<and> status (current (process_research_job True 200 example_outcome example_job)) = Completed
   \<and> pull_requests (current (process_research_job True 200 example_outcome example_job))
       = Some [''https://github.com/acme/infra/pull/1'']
   \<and> completed_at (current (process_research_job True 200 example_outcome example_job))
       = Some 200
   \<and> assignments_to Completed_at_field
        (history (process_research_job True 200 example_outcome example_job)) = 1
   \<and> status (current (process_research_job True 200 no_fix_outcome example_job)) = Failed
   \<and> error_message (current (process_research_job True 200 no_fix_outcome example_job))
       = Some ''No pull requests created''"
proof -
  have rel: "identify_relevant_repositories example_alert example_repos =
     [(example_repo ''lambda-svc'' [''lambda'', ''errorrate''] ''high'', 29 / 50),
      (example_repo ''infra'' [''aws''] ''high'', 9 / 25),
      (example_repo ''billing'' [] ''low'', 3 / 10)]"
    by code_simp
  have ne: "identify_relevant_repositories example_alert example_repos \<noteq> []"
    unfolding rel by simp
  have in1: "\<forall>i < length (take 2 (identify_relevant_repositories example_alert example_repos)).
      \<forall>m. example_outcome i \<noteq> Workspace_raises m"
    by (simp add: example_outcome_def example_result_def)
  have in2: "\<forall>i < length (take 2 (identify_relevant_repositories example_alert example_repos)).
      \<forall>m. no_fix_outcome i \<noteq> Workspace_raises m"
    by (simp add: no_fix_outcome_def)
  have pr: "pull_requests (current (process_research_job True 200 example_outcome example_job))
       = Some [''https://github.com/acme/infra/pull/1'']"
    by code_simp
  have npr: "pull_requests (current (process_research_job True 200 no_fix_outcome example_job))
       = None"
    by code_simp
  have nem: "error_message (current (process_research_job True 200 no_fix_outcome example_job))
       = Some ''No pull requests created''"
    by code_simp
  have 1: "status (current (process_research_job True 200 example_outcome example_job)) = Completed
      \<and> completed_at (current (process_research_job True 200 example_outcome example_job))
          = Some 200
      \<and> assignments_to Completed_at_field
          (history (process_research_job True 200 example_outcome example_job)) = 1"
    using final_disposition [OF ne in1, where jid = "''job-1''" and ?t0.0 = 100 and now = 200] pr
    unfolding example_job_def by auto
  have 2: "status (current (process_research_job True 200 no_fix_outcome example_job)) = Failed"
    using final_disposition [OF ne in2, where jid = "''job-1''" and ?t0.0 = 100 and now = 200] npr
    unfolding example_job_def by auto
  show ?thesis using ne pr nem 1 2 by simp
qed

text \<open>
  C5. The candidates that the loop visits, in order, are an initial segment of the
  first two entries of the ranking, which is in descending order of relevance; so at
  most the two highest-ranked candidates are visited, one after the other. When no
  exception escapes the inner \<^verbatim>\<open>try\<close> (a failing workspace is the only one that
  does), both are visited: an exception raised by the clone, by the analysis or by the
  creation of the pull request is caught, its message is recorded in the job's error
  message and the loop goes on to the next candidate. Hence, for a job with at least
  two ranked candidates where the clone of the first raises with message \<open>m\<close> and the
  second succeeds from the clone to the pull request \<open>u\<close>, the job ends completed with
  exactly the one URL \<open>u\<close> and with \<open>m\<close> as its error message, both candidates visited.
\<close>

theorem candidate_iteration:
  fixes jid a repos t0 now oc
  defines "job0 \<equiv> new_job jid a repos t0"
  defines "rel \<equiv> identify_relevant_repositories a repos"
  defines "run \<equiv> process_research_job True now oc job0"
  shows "prefix (visited (history run)) (map fst (take 2 rel))
     \<and> length (visited (history run)) \<le> 2
     \<and> sorted_wrt (\<lambda>x y. snd x \<ge> snd y) rel
     \<and> ((\<forall>i < length (take 2 rel). \<forall>m. oc i \<noteq> Workspace_raises m)
          \<longrightarrow> visited (history run) = map fst (take 2 rel))
     \<and> (\<forall>r m ex0. \<exists>ex1. process_candidate r (Clone_raises m) ex0 = Inr ex1
                        \<and> error_message (current ex1) = Some m)
     \<and> (\<forall>r m ex0. \<exists>ex1. process_candidate r (Analyze_raises m) ex0 = Inr ex1
                        \<and> error_message (current ex1) = Some m)
     \<and> (\<forall>r res m ex0. analysis_complete res \<and> fix_proposals res \<noteq> [] \<longrightarrow>
           (\<exists>ex1. process_candidate r (Analyzed res (Inl m)) ex0 = Inr ex1
                  \<and> error_message (current ex1) = Some m))
     \<and> (\<forall>m res u.
           2 \<le> length rel \<and> oc 0 = Clone_raises m \<and> oc 1 = Analyzed res (Inr u)
           \<and> analysis_complete res \<and> fix_proposals res \<noteq> []
           \<longrightarrow> status (current run) = Completed
               \<and> pull_requests (current run) = Some [u]
               \<and> error_message (current run) = Some m
               \<and> visited (history run) = map fst (take 2 rel))"
proof -
  have j: "job0 = new_job jid a repos t0" by (simp add: job0_def)
  have ar: "alert job0 = a" "repositories job0 = repos" by (simp_all add: j new_job_def)
  have rel': "identify_relevant_repositories (alert job0) (repositories job0) = rel"
    by (simp add: ar rel_def)
  have pre: "prefix (visited (history run)) (map fst (take 2 rel))"
  proof (cases True now oc job0 rule: run_cases)
    case unconfigured
    then show ?thesis by simp
  next
    case irrelevant
    then show ?thesis
      unfolding run_def by (simp add: visited_early visited_start)
  next
    case (raised m ex)
    show ?thesis
      using visited_process_candidates [where outcome = oc and i = 0 and cands = "take 2 rel" and ex = "start_job job0"] raised(3)
      unfolding run_def raised(4) rel' by (simp add: visited_fail_job visited_start)
  next
    case (finished ex)
    show ?thesis
      using visited_process_candidates [where outcome = oc and i = 0 and cands = "take 2 rel" and ex = "start_job job0"] finished(3)
      unfolding run_def finished(4) rel' by (simp add: visited_finish_job visited_start)
  qed
  have len: "length (visited (history run)) \<le> 2"
    using prefix_length_le [OF pre] by simp
  have srt: "sorted_wrt (\<lambda>x y. snd x \<ge> snd y) rel"
    unfolding rel_def identify_relevant_repositories_def by (rule rank_sorted)
  have all: "visited (history run) = map fst (take 2 rel)"
    if inner: "\<forall>i < length (take 2 rel). \<forall>m. oc i \<noteq> Workspace_raises m"
  proof (cases "rel = []")
    case True
    then show ?thesis using pre by simp
  next
    case False
    obtain ex where ex: "process_candidates oc 0 (take 2 rel) (start_job job0) = Inr ex"
      using process_candidates_Inr [of "take 2 rel" oc 0 "start_job job0"] inner by auto
    have run: "run = finish_job now ex"
      using False ex by (simp add: run_def process_research_job_def Let_def rel')
    show ?thesis
      using visited_process_candidates [where outcome = oc and i = 0 and cands = "take 2 rel" and ex = "start_job job0"] ex
      unfolding run by (simp add: visited_finish_job visited_start)
  qed
  have example: "status (current run) = Completed
               \<and> pull_requests (current run) = Some [u]
               \<and> error_message (current run) = Some m
               \<and> visited (history run) = map fst (take 2 rel)"
    if h: "2 \<le> length rel" "oc 0 = Clone_raises m" "oc 1 = Analyzed res (Inr u)"
      "analysis_complete res" "fix_proposals res \<noteq> []" for m res u
  proof -
    obtain c1 c2 rest where r: "rel = c1 # c2 # rest"
      using h(1) by (cases rel; cases "tl rel") auto
    obtain r1 s1 r2 s2 where c: "c1 = (r1, s1)" "c2 = (r2, s2)"
      by (cases c1; cases c2) auto
    have oc1: "oc (Suc 0) = Analyzed res (Inr u)" using h(3) by simp
    show ?thesis
      unfolding run_def process_research_job_def Let_def rel' r c
      using h(2,4,5) oc1
      by (simp add: Let_def exec_simps finish_job_def start_job_def truthy_def j new_job_def)
  qed
  show ?thesis
    using pre len srt all example clone_raises_recorded analyze_raises_recorded
      pr_raises_recorded
    by blast
qed

theorem candidate_iteration_witness:
  "2 \<le> length (identify_relevant_repositories example_alert example_repos)
   \<and> example_outcome 0 = Clone_raises ''clone failed''
   \<and> example_outcome 1 = Analyzed example_result (Inr ''https://github.com/acme/infra/pull/1'')
   \<and> analysis_complete example_result \<and> fix_proposals example_result \<noteq> []
   \<and> status (current (process_research_job True 200 example_outcome example_job)) = Completed
   \<and> pull_requests (current (process_research_job True 200 example_outcome example_job))
       = Some [''https://github.com/acme/infra/pull/1'']
   \<and> error_message (current (process_research_job True 200 example_outcome example_job))
       = Some ''clone failed''
   \<and> visited (history (process_research_job True 200 example_outcome example_job))
       = [example_repo ''lambda-svc'' [''lambda'', ''errorrate''] ''high'',
          example_repo ''infra'' [''aws''] ''high'']"
proof -
  have rel: "identify_relevant_repositories example_alert example_repos =
     [(example_repo ''lambda-svc'' [''lambda'', ''errorrate''] ''high'', 29 / 50),
      (example_repo ''infra'' [''aws''] ''high'', 9 / 25),
      (example_repo ''billing'' [] ''low'', 3 / 10)]"
    by code_simp
  have h: "2 \<le> length (identify_relevant_repositories example_alert example_repos)"
    "example_outcome 0 = Clone_raises ''clone failed''"
    "example_outcome 1 = Analyzed example_result (Inr ''https://github.com/acme/infra/pull/1'')"
    "analysis_complete example_result" "fix_proposals example_result \<noteq> []"
    unfolding rel by (simp_all add: example_outcome_def example_result_def)
  have "status (current (process_research_job True 200 example_outcome example_job)) = Completed
      \<and> pull_requests (current (process_research_job True 200 example_outcome example_job))
          = Some [''https://github.com/acme/infra/pull/1'']
      \<and> error_message (current (process_research_job True 200 example_outcome example_job))
          = Some ''clone failed''
      \<and> visited (history (process_research_job True 200 example_outcome example_job))
          = map fst (take 2 (identify_relevant_repositories example_alert example_repos))"
    using candidate_iteration [where jid = "''job-1''" and a = example_alert
        and repos = example_repos and ?t0.0 = 100 and now = 200 and oc = example_outcome] h
    unfolding example_job_def by blast
  then show ?thesis using h unfolding rel by simp
qed

end
